theory Spec2Isabelle
  imports Main "HOL-Library.AList" "HOL-Library.Sublist" "HOL-Library.Word"
begin

section \<open>SDR Finder: ingestion, normalisation and lookup (src/src/App.jsx)\<close>

text \<open>
  The development embeds the data path of the React component \<open>App\<close>: the projection of
  parsed spreadsheet rows (\<open>processedData\<close> inside \<open>handleFileUpload\<close>), the state updates
  of the upload handler, and the de-duplicating substring search of \<open>handleSearchChange\<close>.

  Scope of the value model:
  \<^item> a JavaScript string is the list of its UTF-16 code units, restricted to code units
    below 256 (the Latin-1 range), one \<open>char\<close> each;
  \<^item> a cell value is a string, a number, a boolean or \<open>undefined\<close>; a number is an
    integer \<open>n\<close> with \<open>-2^53 \<le> n < 2^53\<close>, held as a 54-bit signed word: these are the
    integers a double holds exactly and \<open>String(n)\<close> prints digit for digit; fractions
    and larger magnitudes have no term;
  \<^item> an object is the list of its own enumerable properties in \<open>for ... in\<close> order.
\<close>

subsection \<open>Values\<close>

datatype jsval = Undefined | Str string | Num "54 word" | Bool bool

text \<open>Truthiness as tested by \<open>&&\<close>, \<open>if\<close> and \<open>filter\<close>.\<close>

fun truthy :: "jsval \<Rightarrow> bool" where
  "truthy Undefined = False"
| "truthy (Str s) = (s \<noteq> [])"
| "truthy (Num n) = (n \<noteq> 0)"
| "truthy (Bool b) = b"

fun showNat :: "nat \<Rightarrow> string" where
  "showNat n = (if n < 10 then [char_of (48 + n)]
                else showNat (n div 10) @ [char_of (48 + n mod 10)])"

declare showNat.simps [simp del]

definition showInt :: "int \<Rightarrow> string" where
  "showInt i = (if i < 0 then CHR ''-'' # showNat (nat (- i)) else showNat (nat i))"

text \<open>
  The conversion \<open>String(v)\<close>; a number is read as the signed integer it stands for and
  printed in decimal.
\<close>

fun jsString :: "jsval \<Rightarrow> string" where
  "jsString Undefined = ''undefined''"
| "jsString (Str s) = s"
| "jsString (Num n) = showInt (sint n)"
| "jsString (Bool b) = (if b then ''true'' else ''false'')"

subsection \<open>String operations\<close>

text \<open>
  \<open>String.prototype.toLowerCase\<close> on Latin-1: the letters A to Z and the accented
  capitals U+00C0 to U+00DE (without the multiplication sign U+00D7) move up by 32.
\<close>

definition toLowerChar :: "char \<Rightarrow> char" where
  "toLowerChar c =
     (let n = (of_char c :: nat)
      in if (65 \<le> n \<and> n \<le> 90) \<or> (192 \<le> n \<and> n \<le> 222 \<and> n \<noteq> 215)
         then char_of (n + 32) else c)"

definition toLowerCase :: "string \<Rightarrow> string" where
  "toLowerCase s = map toLowerChar s"

text \<open>
  \<open>String.prototype.trim\<close> removes white space and line terminators from both ends;
  below 256 these are TAB, LF, VT, FF, CR, SPACE and NBSP.
\<close>

definition isWhiteSpace :: "char \<Rightarrow> bool" where
  "isWhiteSpace c = ((of_char c :: nat) \<in> {9, 10, 11, 12, 13, 32, 160})"

definition trim :: "string \<Rightarrow> string" where
  "trim s = rev (dropWhile isWhiteSpace (rev (dropWhile isWhiteSpace s)))"

text \<open>\<open>s.includes(sub)\<close>: \<open>sub\<close> occurs in \<open>s\<close> as a contiguous substring.\<close>

fun startsWith :: "string \<Rightarrow> string \<Rightarrow> bool" where
  "startsWith s [] = True"
| "startsWith [] (c # sub) = False"
| "startsWith (d # s) (c # sub) = (d = c \<and> startsWith s sub)"

fun includes_js :: "string \<Rightarrow> string \<Rightarrow> bool" where
  "includes_js [] sub = (sub = [])"
| "includes_js (d # s) sub = (startsWith (d # s) sub \<or> includes_js s sub)"

subsection \<open>Objects\<close>

type_synonym obj = "(string \<times> jsval) list"

text \<open>
  Property read \<open>o[k]\<close> (\<open>o.k\<close>): the value of the own property \<open>k\<close>, and
  \<open>undefined\<close> when there is none. The code reads \<open>salesLevel6\<close> and \<open>sdrName\<close>
  only, names that \<open>Object.prototype\<close> does not define.
\<close>

definition get :: "obj \<Rightarrow> string \<Rightarrow> jsval" where
  "get ob k = (case map_of ob k of None \<Rightarrow> Undefined | Some v \<Rightarrow> v)"

text \<open>
  Property write \<open>o[k] = v\<close> on an object created by \<open>{}\<close>, for a primitive \<open>v\<close>. An
  existing property keeps its place, a new one goes last. The object inherits the accessor
  \<open>__proto__\<close> from \<open>Object.prototype\<close>: a write to that name runs the inherited setter,
  which ignores a primitive value, so no own property is created.
\<close>

definition set_prop :: "string \<Rightarrow> jsval \<Rightarrow> obj \<Rightarrow> obj" where
  "set_prop k v ob = (if k = ''__proto__'' then ob else AList.update k v ob)"

subsection \<open>Record projection (\<open>processedData\<close>)\<close>

text \<open>The body of \<open>for (const key in row)\<close>, applied to the entry \<open>(key, row[key])\<close>.\<close>

definition assignHeader :: "obj \<Rightarrow> string \<times> jsval \<Rightarrow> obj" where
  "assignHeader newRow kv =
     (let cleanedKey = toLowerCase (trim (fst kv))
      in if includes_js cleanedKey ''sales level 6'' then set_prop ''salesLevel6'' (snd kv) newRow
         else if includes_js cleanedKey ''sdr'' then set_prop ''sdrName'' (snd kv) newRow
         else set_prop cleanedKey (snd kv) newRow)"

text \<open>The callback of \<open>json.map\<close>: start from \<open>{}\<close> and visit the entries in order.\<close>

definition projectRow :: "obj \<Rightarrow> obj" where
  "projectRow row = foldl assignHeader [] row"

definition hasBothFields :: "obj \<Rightarrow> bool" where
  "hasBothFields row = (truthy (get row ''salesLevel6'') \<and> truthy (get row ''sdrName''))"

definition processedData :: "obj list \<Rightarrow> obj list" where
  "processedData json = filter hasBothFields (map projectRow json)"

subsection \<open>Component state\<close>

record query_result =
  salesLevel6 :: jsval
  sdrName :: jsval

text \<open>
  The \<open>useState\<close> cells of the component; \<open>fileInput\<close> is \<open>fileInputRef.current\<close>
  (\<open>None\<close> while the ref is null) with the \<open>value\<close> of the input element.
\<close>

record app_state =
  excelData :: "obj list"
  searchTerm :: string
  filteredResults :: "query_result list"
  message :: string
  fileSelected :: bool
  isXLSXLoaded :: bool
  fileInput :: "string option"

definition clearFileInput :: "app_state \<Rightarrow> app_state" where
  "clearFileInput s = s\<lparr>fileInput := map_option (\<lambda>_. []) (fileInput s)\<rparr>"

definition dq :: string where
  "dq = [CHR 0x22]"

definition msgLoaded :: "nat \<Rightarrow> string \<Rightarrow> string" where
  "msgLoaded n fileName =
     ''Successfully loaded '' @ showNat n @ '' records from '' @ dq @ fileName @ dq
       @ ''. You can now search.''"

definition msgNoValidRows :: string where
  "msgNoValidRows =
     ''No valid '' @ dq @ ''Sales Level 6'' @ dq @ '' or '' @ dq @ ''SDR Name'' @ dq
       @ '' data found in the file. Please ensure these columns exist.''"

definition msgParseError :: string where
  "msgParseError =
     ''Failed to read file. Please ensure it is a valid .xlsx, .xls, or .csv file.''"

subsection \<open>Upload (\<open>handleFileUpload\<close>)\<close>

text \<open>
  What the \<open>try\<close> block obtains from SheetJS: the rows of the first sheet, or an exception
  thrown by \<open>XLSX.read\<close> or \<open>sheet_to_json\<close>.
\<close>

datatype parse_error = ParserThrew

text \<open>The \<open>reader.onload\<close> callback for the file called \<open>fileName\<close>.\<close>

definition onload :: "string \<Rightarrow> parse_error + obj list \<Rightarrow> app_state \<Rightarrow> app_state" where
  "onload fileName parsed s =
     (case parsed of
        Inr json \<Rightarrow>
          (let processed = processedData json
           in if length processed > 0
              then s\<lparr>message := msgLoaded (length processed) fileName,
                     excelData := processed,
                     filteredResults := []\<rparr>
              else clearFileInput (s\<lparr>excelData := [], message := msgNoValidRows\<rparr>))
      | Inl err \<Rightarrow>
          clearFileInput (s\<lparr>message := msgParseError, excelData := []\<rparr>))"

text \<open>
  The handler itself, with the file chosen in the event (\<open>None\<close>: no file) and the result
  the reader and parser will deliver for it.
\<close>

definition handleFileUpload ::
    "string option \<Rightarrow> parse_error + obj list \<Rightarrow> app_state \<Rightarrow> app_state" where
  "handleFileUpload file parsed s =
     (case file of
        None \<Rightarrow>
          s\<lparr>fileSelected := False,
            message := ''Please select an Excel or CSV file to upload.'',
            excelData := [],
            filteredResults := []\<rparr>
      | Some fileName \<Rightarrow>
          if \<not> isXLSXLoaded s
          then clearFileInput
                 (s\<lparr>message :=
                      ''Excel parsing library is still loading. Please wait a moment and try again.''\<rparr>)
          else onload fileName parsed (s\<lparr>fileSelected := True\<rparr>))"

subsection \<open>Search (\<open>handleSearchChange\<close>)\<close>

text \<open>
  The \<open>Map\<close> named \<open>uniqueResultsMap\<close> is the list of its entries in insertion order;
  \<open>addResult\<close> is the callback of \<open>excelData.forEach\<close>.
\<close>

definition addResult ::
    "string \<Rightarrow> (string \<times> query_result) list \<Rightarrow> obj \<Rightarrow> (string \<times> query_result) list" where
  "addResult term uniqueResultsMap row =
     (if truthy (get row ''salesLevel6'')
         \<and> includes_js (toLowerCase (jsString (get row ''salesLevel6''))) (toLowerCase term)
      then (let salesLevel6Key = toLowerCase (jsString (get row ''salesLevel6''))
            in if map_of uniqueResultsMap salesLevel6Key = None
               then uniqueResultsMap
                      @ [(salesLevel6Key,
                          \<lparr>salesLevel6 = get row ''salesLevel6'', sdrName = get row ''sdrName''\<rparr>)]
               else uniqueResultsMap)
      else uniqueResultsMap)"

definition uniqueResults :: "string \<Rightarrow> obj list \<Rightarrow> query_result list" where
  "uniqueResults term rows = map snd (foldl (addResult term) [] rows)"

definition handleSearchChange :: "string \<Rightarrow> app_state \<Rightarrow> app_state" where
  "handleSearchChange term s =
     (if length term > 0 \<and> length (excelData s) > 0
      then (let results = uniqueResults term (excelData s)
            in s\<lparr>searchTerm := term,
                 filteredResults := results,
                 message := (if length results = 0 then ''No matching Sales Level 6 found.''
                             else [])\<rparr>)
      else s\<lparr>searchTerm := term,
             filteredResults := [],
             message := (if length (excelData s) > 0
                         then ''Start typing in the search bar to find SDRs by Sales Level 6.''
                         else if length term > 0 then ''Please upload a file first to search.''
                         else [])\<rparr>)"

subsection \<open>Notions used to state the properties\<close>

text \<open>
  The property of \<open>newRow\<close> that the loop body writes for the header \<open>key\<close>: the branch
  taken by the \<open>if\<close> chain of \<open>processedData\<close>.
\<close>

definition headerField :: "string \<Rightarrow> string" where
  "headerField key =
     (let cleanedKey = toLowerCase (trim key)
      in if includes_js cleanedKey ''sales level 6'' then ''salesLevel6''
         else if includes_js cleanedKey ''sdr'' then ''sdrName''
         else cleanedKey)"

text \<open>
  The Header Normalizer in the words of the specification (section 4.1): trim, lowercase,
  then tag by substring, the territory column first. \<open>sublist p s\<close> says that \<open>p\<close> is a
  contiguous part of \<open>s\<close>.
\<close>

datatype header_tag = TerritoryKey | OwnerName | Passthrough string

definition normalizeHeader_spec :: "string \<Rightarrow> header_tag" where
  "normalizeHeader_spec header =
     (let cleaned = toLowerCase (trim header)
      in if sublist ''sales level 6'' cleaned then TerritoryKey
         else if sublist ''sdr'' cleaned then OwnerName
         else Passthrough cleaned)"

text \<open>The field of the canonical record that a tag stands for.\<close>

fun fieldOf :: "header_tag \<Rightarrow> string" where
  "fieldOf TerritoryKey = ''salesLevel6''"
| "fieldOf OwnerName = ''sdrName''"
| "fieldOf (Passthrough k) = k"

text \<open>The value of the last entry of a raw row whose header is written to field \<open>f\<close>.\<close>

definition lastValueFor :: "string \<Rightarrow> obj \<Rightarrow> jsval option" where
  "lastValueFor f row = map_option snd (find (\<lambda>kv. headerField (fst kv) = f) (rev row))"

text \<open>\<open>typeof v === 'string'\<close>.\<close>

fun isString :: "jsval \<Rightarrow> bool" where
  "isString (Str s) = True"
| "isString v = False"

text \<open>
  The dedup identity of a record, the test made on each record by the search, the result
  object built from a record, and the dedup identity of a result.
\<close>

definition territoryKeyLower :: "obj \<Rightarrow> string" where
  "territoryKeyLower r = toLowerCase (jsString (get r ''salesLevel6''))"

definition matchesQuery :: "string \<Rightarrow> obj \<Rightarrow> bool" where
  "matchesQuery term r =
     (truthy (get r ''salesLevel6'') \<and> includes_js (territoryKeyLower r) (toLowerCase term))"

definition toResult :: "obj \<Rightarrow> query_result" where
  "toResult r = \<lparr>salesLevel6 = get r ''salesLevel6'', sdrName = get r ''sdrName''\<rparr>"

definition resultKey :: "query_result \<Rightarrow> string" where
  "resultKey q = toLowerCase (jsString (salesLevel6 q))"

text \<open>
  Position \<open>i\<close> holds the first record, in input order, that passes the test with its
  dedup identity.
\<close>

definition firstMatch :: "string \<Rightarrow> obj list \<Rightarrow> nat \<Rightarrow> bool" where
  "firstMatch term rows i =
     (matchesQuery term (rows ! i)
      \<and> territoryKeyLower (rows ! i)
          \<notin> set (map territoryKeyLower (filter (matchesQuery term) (take i rows))))"

text \<open>The rows of scenario A and the row of scenario B of the specification.\<close>

definition scenarioA :: "obj list" where
  "scenarioA =
     [[(''Sales Level 6'', Str ''West-1''), (''SDR Name'', Str ''Alice'')],
      [(''Sales Level 6'', Str ''west-1''), (''SDR Name'', Str ''Bob'')],
      [(''Sales Level 6'', Str ''East-9''), (''SDR'', Str ''Carol'')]]"

definition scenarioB :: "obj list" where
  "scenarioB = [[(''Region'', Str ''West-1''), (''Owner'', Str ''Alice'')]]"

definition initialState :: app_state where
  "initialState =
     \<lparr>excelData = [], searchTerm = [], filteredResults = [],
      message = ''Loading Excel parsing library...'', fileSelected = False,
      isXLSXLoaded = False, fileInput = None\<rparr>"

section \<open>Properties\<close>

subsection \<open>Strings and objects\<close>

lemma startsWith_prefix: "startsWith s p = prefix p s"
  by (induction s p rule: startsWith.induct) auto

lemma includes_js_sublist: "includes_js s sub = sublist sub s"
  by (induction s) (simp_all add: startsWith_prefix sublist_Cons_right)

lemma toLowerChar_idem: "toLowerChar (toLowerChar c) = toLowerChar c"
  by (auto simp: toLowerChar_def Let_def)

lemma isWhiteSpace_toLowerChar: "isWhiteSpace (toLowerChar c) = isWhiteSpace c"
  by (auto simp: toLowerChar_def isWhiteSpace_def Let_def)

lemma toLowerCase_idem: "toLowerCase (toLowerCase s) = toLowerCase s"
  by (simp add: toLowerCase_def toLowerChar_idem)

lemma dropWhile_toLowerCase:
  "dropWhile isWhiteSpace (toLowerCase s) = toLowerCase (dropWhile isWhiteSpace s)"
  by (induction s) (simp_all add: toLowerCase_def isWhiteSpace_toLowerChar)

lemma trim_toLowerCase: "trim (toLowerCase s) = toLowerCase (trim s)"
proof -
  have r: "rev (toLowerCase t) = toLowerCase (rev t)" for t
    by (simp add: toLowerCase_def rev_map)
  show ?thesis
    by (simp only: trim_def dropWhile_toLowerCase r)
qed

lemma dropWhile_idem: "dropWhile P (dropWhile P xs) = dropWhile P xs"
  by (induction xs) simp_all

lemma dropWhile_rev_dropWhile:
  assumes "xs = [] \<or> \<not> P (hd xs)"
  shows "dropWhile P (rev (dropWhile P (rev xs))) = rev (dropWhile P (rev xs))"
proof (cases "rev (dropWhile P (rev xs))")
  case Nil
  show ?thesis by (simp only: Nil dropWhile.simps)
next
  case (Cons a u)
  have "rev xs = takeWhile P (rev xs) @ dropWhile P (rev xs)"
    by simp
  then have "rev (rev xs) = rev (dropWhile P (rev xs)) @ rev (takeWhile P (rev xs))"
    by (simp only: rev_append [symmetric])
  with Cons have "xs = a # u @ rev (takeWhile P (rev xs))"
    by simp
  then have "xs \<noteq> []" and "hd xs = a"
    by (metis list.distinct(1), metis list.sel(1))
  with assms have "\<not> P a"
    by simp
  then show ?thesis
    unfolding Cons by simp
qed

lemma trim_idem: "trim (trim s) = trim s"
proof -
  let ?t = "dropWhile isWhiteSpace s"
  let ?u = "rev (dropWhile isWhiteSpace (rev ?t))"
  have "?t = [] \<or> \<not> isWhiteSpace (hd ?t)"
    using hd_dropWhile [of isWhiteSpace s] by blast
  then have "dropWhile isWhiteSpace ?u = ?u"
    by (rule dropWhile_rev_dropWhile)
  then have "trim ?u = rev (dropWhile isWhiteSpace (rev ?u))"
    by (simp only: trim_def)
  also have "\<dots> = ?u"
    by (simp add: dropWhile_idem)
  finally show ?thesis
    by (simp only: trim_def)
qed

lemma cleanKey_idem:
  "toLowerCase (trim (toLowerCase (trim key))) = toLowerCase (trim key)"
  by (simp add: trim_toLowerCase trim_idem toLowerCase_idem)

lemma assignHeader_field:
  "assignHeader newRow kv = set_prop (headerField (fst kv)) (snd kv) newRow"
  by (simp add: assignHeader_def headerField_def Let_def)

lemma headerField_spec: "headerField key = fieldOf (normalizeHeader_spec key)"
  by (simp add: headerField_def normalizeHeader_spec_def Let_def includes_js_sublist)

lemma get_update: "get (AList.update k v ob) f = (if k = f then v else get ob f)"
  by (simp add: get_def update_conv')

lemma get_set_prop:
  "get (set_prop k v ob) f = (if k = f \<and> k \<noteq> ''__proto__'' then v else get ob f)"
  by (simp add: set_prop_def get_update)

lemma get_foldl_assignHeader:
  "f \<noteq> ''__proto__'' \<Longrightarrow>
     get (foldl assignHeader acc row) f
       = (case lastValueFor f row of Some v \<Rightarrow> v | None \<Rightarrow> get acc f)"
  by (induction row arbitrary: acc rule: rev_induct)
     (simp_all add: lastValueFor_def assignHeader_field get_set_prop)

lemma get_Nil: "get [] f = Undefined"
  by (simp add: get_def)

lemma get_projectRow:
  "f \<noteq> ''__proto__'' \<Longrightarrow>
     get (projectRow row) f = (case lastValueFor f row of Some v \<Rightarrow> v | None \<Rightarrow> Undefined)"
  by (simp add: projectRow_def get_foldl_assignHeader get_Nil split: option.split)

subsection \<open>Header normalisation\<close>

lemma find_Some_mem: "find P xs = Some x \<Longrightarrow> x \<in> set xs \<and> P x"
  by (induction xs) (auto split: if_splits)

lemma find_append_None: "find P xs = None \<Longrightarrow> find P (xs @ ys) = find P ys"
  by (induction xs) (auto split: if_splits)

lemma lastValueFor_mem:
  "lastValueFor f row = Some v \<Longrightarrow> \<exists>kv \<in> set row. headerField (fst kv) = f \<and> snd kv = v"
  by (auto simp: lastValueFor_def dest!: find_Some_mem)

lemma toLowerChar_not_upper:
  "toLowerChar c \<noteq> CHR ''L'' \<and> toLowerChar c \<noteq> CHR ''N''"
proof -
  have "(of_char (toLowerChar c) :: nat) \<noteq> 76 \<and> (of_char (toLowerChar c) :: nat) \<noteq> 78"
    by (auto simp: toLowerChar_def Let_def)
  then show ?thesis
    by auto
qed

lemma toLowerCase_not_field:
  "toLowerCase s \<noteq> ''salesLevel6'' \<and> toLowerCase s \<noteq> ''sdrName''"
proof -
  have "CHR ''L'' \<noteq> toLowerChar c" and "CHR ''N'' \<noteq> toLowerChar c" for c
    using toLowerChar_not_upper [of c] by metis+
  then have "CHR ''L'' \<notin> set (toLowerCase s)" and "CHR ''N'' \<notin> set (toLowerCase s)"
    by (simp_all add: toLowerCase_def image_iff)
  moreover have "CHR ''L'' \<in> set ''salesLevel6''" and "CHR ''N'' \<in> set ''sdrName''"
    by simp_all
  ultimately show ?thesis
    by metis
qed

lemma headerField_salesLevel6_iff:
  "headerField key = ''salesLevel6'' \<longleftrightarrow> includes_js (toLowerCase (trim key)) ''sales level 6''"
  using toLowerCase_not_field [of "trim key"] by (simp add: headerField_def Let_def)

lemma headerField_sdrName_iff:
  "headerField key = ''sdrName''
     \<longleftrightarrow> \<not> includes_js (toLowerCase (trim key)) ''sales level 6''
         \<and> includes_js (toLowerCase (trim key)) ''sdr''"
  using toLowerCase_not_field [of "trim key"] by (simp add: headerField_def Let_def)

text \<open>
  The loop body tags each header as the Header Normalizer of the specification
  prescribes: the header is trimmed and lower-cased; if the result contains
  \<open>sales level 6\<close> the tag is the territory key and the value is written to
  \<open>salesLevel6\<close>; else if it contains \<open>sdr\<close> the tag is the owner name and the value is
  written to \<open>sdrName\<close>; else the header is a passthrough and the property written is
  the one named by the trimmed, lower-cased header. A header containing both substrings,
  such as \<open>Sales Level 6 SDR\<close>, is tagged as the territory key. What a write stores
  is the matter of \<open>set_prop\<close>.
\<close>

lemma assignHeader_refines_spec:
  "assignHeader newRow (key, v) = set_prop (fieldOf (normalizeHeader_spec key)) v newRow
   \<and> (sublist ''sales level 6'' (toLowerCase (trim key)) \<longrightarrow>
        normalizeHeader_spec key = TerritoryKey
        \<and> get (assignHeader newRow (key, v)) ''salesLevel6'' = v)
   \<and> (\<not> sublist ''sales level 6'' (toLowerCase (trim key))
        \<and> sublist ''sdr'' (toLowerCase (trim key)) \<longrightarrow>
        normalizeHeader_spec key = OwnerName
        \<and> get (assignHeader newRow (key, v)) ''sdrName'' = v)
   \<and> (\<not> sublist ''sales level 6'' (toLowerCase (trim key))
        \<and> \<not> sublist ''sdr'' (toLowerCase (trim key)) \<longrightarrow>
        normalizeHeader_spec key = Passthrough (toLowerCase (trim key))
        \<and> assignHeader newRow (key, v) = set_prop (toLowerCase (trim key)) v newRow)
   \<and> (sublist ''sales level 6'' (toLowerCase (trim key))
        \<and> sublist ''sdr'' (toLowerCase (trim key)) \<longrightarrow>
        assignHeader newRow (key, v) = set_prop ''salesLevel6'' v newRow)
   \<and> normalizeHeader_spec ''Sales Level 6 SDR'' = TerritoryKey
   \<and> assignHeader newRow (''Sales Level 6 SDR'', v) = set_prop ''salesLevel6'' v newRow"
proof -
  have refine: "assignHeader r (k, v) = set_prop (fieldOf (normalizeHeader_spec k)) v r" for r k
    by (simp add: assignHeader_field headerField_spec)
  have ex: "normalizeHeader_spec ''Sales Level 6 SDR'' = TerritoryKey"
    by code_simp
  have tags: "(sublist ''sales level 6'' (toLowerCase (trim key)) \<longrightarrow>
                 normalizeHeader_spec key = TerritoryKey)
      \<and> (\<not> sublist ''sales level 6'' (toLowerCase (trim key))
           \<and> sublist ''sdr'' (toLowerCase (trim key)) \<longrightarrow> normalizeHeader_spec key = OwnerName)
      \<and> (\<not> sublist ''sales level 6'' (toLowerCase (trim key))
           \<and> \<not> sublist ''sdr'' (toLowerCase (trim key)) \<longrightarrow>
           normalizeHeader_spec key = Passthrough (toLowerCase (trim key)))"
    by (simp add: normalizeHeader_spec_def Let_def)
  have sl: "get (set_prop ''salesLevel6'' v newRow) ''salesLevel6'' = v"
    by (simp add: get_set_prop)
  have sd: "get (set_prop ''sdrName'' v newRow) ''sdrName'' = v"
    by (simp add: get_set_prop)
  from tags sl sd ex show ?thesis
    by (simp add: refine)
qed

lemma assignHeader_refines_spec_examples:
  "sublist ''sales level 6'' (toLowerCase (trim '' Sales Level 6 (SDR) ''))
   \<and> sublist ''sdr'' (toLowerCase (trim '' Sales Level 6 (SDR) ''))
   \<and> normalizeHeader_spec '' Sales Level 6 (SDR) '' = TerritoryKey
   \<and> assignHeader [] ('' Sales Level 6 (SDR) '', Str ''West-1'')
       = set_prop ''salesLevel6'' (Str ''West-1'') []
   \<and> \<not> sublist ''sales level 6'' (toLowerCase (trim ''SDR Name''))
   \<and> sublist ''sdr'' (toLowerCase (trim ''SDR Name''))
   \<and> get (assignHeader [] (''SDR Name'', Str ''Alice'')) ''sdrName'' = Str ''Alice''
   \<and> \<not> sublist ''sdr'' (toLowerCase (trim '' Region ''))
   \<and> assignHeader [] ('' Region '', Str ''EMEA'') = set_prop ''region'' (Str ''EMEA'') []"
proof -
  have a: "sublist ''sales level 6'' (toLowerCase (trim '' Sales Level 6 (SDR) ''))"
    by code_simp
  have b: "sublist ''sdr'' (toLowerCase (trim '' Sales Level 6 (SDR) ''))"
    by code_simp
  have c: "\<not> sublist ''sales level 6'' (toLowerCase (trim ''SDR Name''))"
    by code_simp
  have d: "sublist ''sdr'' (toLowerCase (trim ''SDR Name''))"
    by code_simp
  have e: "\<not> sublist ''sales level 6'' (toLowerCase (trim '' Region ''))"
    by code_simp
  have f: "\<not> sublist ''sdr'' (toLowerCase (trim '' Region ''))"
    by code_simp
  have g: "toLowerCase (trim '' Region '') = ''region''"
    by code_simp
  from a b assignHeader_refines_spec [of "[]" "'' Sales Level 6 (SDR) ''" "Str ''West-1''"]
  have t: "normalizeHeader_spec '' Sales Level 6 (SDR) '' = TerritoryKey
           \<and> assignHeader [] ('' Sales Level 6 (SDR) '', Str ''West-1'')
               = set_prop ''salesLevel6'' (Str ''West-1'') []"
    by blast
  from c d assignHeader_refines_spec [of "[]" "''SDR Name''" "Str ''Alice''"]
  have o: "get (assignHeader [] (''SDR Name'', Str ''Alice'')) ''sdrName'' = Str ''Alice''"
    by blast
  from e f assignHeader_refines_spec [of "[]" "'' Region ''" "Str ''EMEA''"]
  have "assignHeader [] ('' Region '', Str ''EMEA'')
          = set_prop (toLowerCase (trim '' Region '')) (Str ''EMEA'') []"
    by blast
  then have p: "assignHeader [] ('' Region '', Str ''EMEA'') = set_prop ''region'' (Str ''EMEA'') []"
    by (simp only: g)
  from a b c d f t o p show ?thesis
    by blast
qed

text \<open>
  C3. A header that is tagged as a passthrough is not always kept. The header
  \<open>__PROTO__\<close> contains neither substring, so its tag is the passthrough key
  \<open>__proto__\<close>; the write \<open>newRow['__proto__'] = value\<close> runs the setter inherited from
  \<open>Object.prototype\<close>, which ignores a primitive value, and the projected row has no
  field for the header: the column is dropped.
\<close>

theorem proto_header_not_kept:
  "toLowerCase (trim ''__PROTO__'') = ''__proto__''
   \<and> \<not> includes_js (toLowerCase (trim ''__PROTO__'')) ''sales level 6''
   \<and> \<not> includes_js (toLowerCase (trim ''__PROTO__'')) ''sdr''
   \<and> normalizeHeader_spec ''__PROTO__'' = Passthrough ''__proto__''
   \<and> assignHeader [] (''__PROTO__'', Str ''a'') = []
   \<and> projectRow
        [(''__PROTO__'', Str ''a''), (''Sales Level 6'', Str ''West-1''), (''SDR'', Str ''Alice'')]
       = [(''salesLevel6'', Str ''West-1''), (''sdrName'', Str ''Alice'')]
   \<and> map_of
        (projectRow
           [(''__PROTO__'', Str ''a''), (''Sales Level 6'', Str ''West-1''), (''SDR'', Str ''Alice'')])
        ''__proto__'' = None"
  by code_simp

text \<open>
  The field name written for the header \<open>Sales Level 6\<close> is \<open>salesLevel6\<close>; normalised
  once more it is lower-cased to \<open>saleslevel6\<close>, which has no blanks and so does not
  contain \<open>sales level 6\<close>: the second normalisation yields a passthrough key, not the
  territory field.
\<close>

theorem renormalize_counterexample:
  "headerField ''Sales Level 6'' = ''salesLevel6''
   \<and> headerField (headerField ''Sales Level 6'') = ''saleslevel6''
   \<and> headerField (headerField ''Sales Level 6'') \<noteq> headerField ''Sales Level 6''"
  by code_simp

text \<open>
  C7, as the code has it. Trimming and lower-casing is idempotent. Normalising the field
  name produced for a header gives that field name again whenever the header is not
  tagged as the territory key: \<open>sdrName\<close> still contains \<open>sdr\<close>, and a passthrough key
  such as \<open>territorykey\<close> is its own trimmed, lower-cased form. For a header tagged as
  the territory key the field name \<open>salesLevel6\<close> normalises to the passthrough key
  \<open>saleslevel6\<close>.
\<close>

theorem renormalize_fixpoint:
  "toLowerCase (trim (toLowerCase (trim key))) = toLowerCase (trim key)
   \<and> (\<not> includes_js (toLowerCase (trim key)) ''sales level 6'' \<longrightarrow>
        headerField (headerField key) = headerField key)
   \<and> (includes_js (toLowerCase (trim key)) ''sales level 6'' \<longrightarrow>
        headerField key = ''salesLevel6'' \<and> headerField (headerField key) = ''saleslevel6'')
   \<and> headerField ''territorykey'' = ''territorykey''
   \<and> headerField ''sdrName'' = ''sdrName''"
proof -
  have sdr: "headerField ''sdrName'' = ''sdrName''"
    by code_simp
  have terr: "headerField ''territorykey'' = ''territorykey''"
    by code_simp
  have sl: "headerField ''salesLevel6'' = ''saleslevel6''"
    by code_simp
  have stable: "headerField (headerField key) = headerField key"
    if no: "\<not> includes_js (toLowerCase (trim key)) ''sales level 6''"
  proof (cases "includes_js (toLowerCase (trim key)) ''sdr''")
    case True
    with no have "headerField key = ''sdrName''"
      by (simp add: headerField_def Let_def)
    with sdr show ?thesis
      by simp
  next
    case False
    with no have "headerField key = toLowerCase (trim key)"
      by (simp add: headerField_def Let_def)
    moreover from no False
    have "headerField (toLowerCase (trim key)) = toLowerCase (trim key)"
      by (simp add: headerField_def Let_def cleanKey_idem)
    ultimately show ?thesis
      by simp
  qed
  have terrcase: "headerField key = ''salesLevel6'' \<and> headerField (headerField key) = ''saleslevel6''"
    if "includes_js (toLowerCase (trim key)) ''sales level 6''"
    using that sl by (simp add: headerField_def Let_def)
  from cleanKey_idem [of key] stable terrcase terr sdr show ?thesis
    by blast
qed

theorem renormalize_fixpoint_witness:
  "\<not> includes_js (toLowerCase (trim '' SDR Name '')) ''sales level 6''
   \<and> headerField (headerField '' SDR Name '') = headerField '' SDR Name ''
   \<and> includes_js (toLowerCase (trim ''Sales Level 6 (Territory)'')) ''sales level 6''
   \<and> headerField (headerField ''Sales Level 6 (Territory)'') = ''saleslevel6''"
proof -
  have a: "\<not> includes_js (toLowerCase (trim '' SDR Name '')) ''sales level 6''"
    by code_simp
  have b: "includes_js (toLowerCase (trim ''Sales Level 6 (Territory)'')) ''sales level 6''"
    by code_simp
  from a b renormalize_fixpoint [of "'' SDR Name ''"]
    renormalize_fixpoint [of "''Sales Level 6 (Territory)''"]
  show ?thesis
    by blast
qed

subsection \<open>The canonical record set\<close>

lemma showNat_nonempty: "showNat n \<noteq> []"
  by (subst showNat.simps) simp

lemma truthy_jsString: "truthy v \<Longrightarrow> jsString v \<noteq> []"
  by (cases v) (simp_all add: showInt_def showNat_nonempty)

lemma processedData_truthy:
  "r \<in> set (processedData json) \<Longrightarrow> truthy (get r ''salesLevel6'') \<and> truthy (get r ''sdrName'')"
  by (simp add: processedData_def hasBothFields_def)

text \<open>
  C2. Every record of the canonical record set has truthy \<open>salesLevel6\<close> and \<open>sdrName\<close>
  (so both print as non-empty strings), there are at most as many records as input rows,
  and the records are the surviving projected rows in input order.
\<close>

theorem projection_invariant:
  "(\<forall>r \<in> set (processedData json).
      truthy (get r ''salesLevel6'') \<and> truthy (get r ''sdrName'')
      \<and> jsString (get r ''salesLevel6'') \<noteq> [] \<and> jsString (get r ''sdrName'') \<noteq> [])
   \<and> length (processedData json) \<le> length json
   \<and> subseq (processedData json) (map projectRow json)"
proof -
  have "\<forall>r \<in> set (processedData json). hasBothFields r"
    by (simp add: processedData_def)
  then have fields: "\<forall>r \<in> set (processedData json).
      truthy (get r ''salesLevel6'') \<and> truthy (get r ''sdrName'')
      \<and> jsString (get r ''salesLevel6'') \<noteq> [] \<and> jsString (get r ''sdrName'') \<noteq> []"
    by (simp add: hasBothFields_def truthy_jsString)
  have "length (processedData json) \<le> length (map projectRow json)"
    unfolding processedData_def by (rule length_filter_le)
  then have len: "length (processedData json) \<le> length json"
    by simp
  have ord: "subseq (processedData json) (map projectRow json)"
    by (simp add: processedData_def)
  from fields len ord show ?thesis by blast
qed

theorem projection_invariant_witness:
  "[(''salesLevel6'', Str ''West-1''), (''sdrName'', Str ''Alice'')]
     \<in> set (processedData
               [[(''Region'', Str ''x'')],
                [(''Sales Level 6'', Str ''West-1''), (''SDR Name'', Str ''Alice'')]])
   \<and> truthy (get [(''salesLevel6'', Str ''West-1''), (''sdrName'', Str ''Alice'')] ''salesLevel6'')
   \<and> truthy (get [(''salesLevel6'', Str ''West-1''), (''sdrName'', Str ''Alice'')] ''sdrName'')
   \<and> length (processedData
               [[(''Region'', Str ''x'')],
                [(''Sales Level 6'', Str ''West-1''), (''SDR Name'', Str ''Alice'')]]) \<le> 2"
proof -
  have mem: "[(''salesLevel6'', Str ''West-1''), (''sdrName'', Str ''Alice'')]
     \<in> set (processedData
               [[(''Region'', Str ''x'')],
                [(''Sales Level 6'', Str ''West-1''), (''SDR Name'', Str ''Alice'')]])"
    by code_simp
  from mem projection_invariant
         [of "[[(''Region'', Str ''x'')],
               [(''Sales Level 6'', Str ''West-1''), (''SDR Name'', Str ''Alice'')]]"]
  show ?thesis by auto
qed

text \<open>
  Within one row, the value of the last header written to a field is the value the
  projected row holds for it, for every field name but \<open>__proto__\<close>.
\<close>

lemma last_header_wins:
  assumes "\<forall>kv \<in> set zs. headerField (fst kv) \<noteq> headerField k"
    and "headerField k \<noteq> ''__proto__''"
  shows "get (projectRow (xs @ (k, v) # zs)) (headerField k) = v"
proof -
  from assms(1) have "find (\<lambda>kv. headerField (fst kv) = headerField k) (rev zs) = None"
    by (auto simp: find_None_iff)
  then have "lastValueFor (headerField k) (xs @ (k, v) # zs) = Some v"
    by (simp add: lastValueFor_def find_append_None)
  with assms(2) show ?thesis
    by (simp add: get_projectRow)
qed

lemma last_header_wins_examples:
  "projectRow [(''Sales Level 6'', Str ''West-1''), (''SDR'', Str ''Alice''), (''SDR 2'', Str ''Bob'')]
     = [(''salesLevel6'', Str ''West-1''), (''sdrName'', Str ''Bob'')]
   \<and> projectRow [(''Region'', Str ''a''), ('' region '', Str ''b'')] = [(''region'', Str ''b'')]"
  by code_simp

lemma kept_row_value:
  assumes "truthy (get (projectRow row) f)" and "f \<noteq> ''__proto__''"
  shows "lastValueFor f row = Some (get (projectRow row) f)"
proof (cases "lastValueFor f row")
  case None
  with assms(2) have "get (projectRow row) f = Undefined"
    by (simp add: get_projectRow)
  with assms(1) show ?thesis
    by simp
next
  case (Some v)
  with assms(2) show ?thesis
    by (simp add: get_projectRow)
qed

text \<open>
  A numeric territory cell is stored as the number it is: the row is kept, and its
  \<open>salesLevel6\<close> is not a string.
\<close>

theorem stored_not_coerced_counterexample:
  "processedData [[(''Sales Level 6'', Num 42), (''SDR'', Str ''Alice'')]]
     = [[(''salesLevel6'', Num 42), (''sdrName'', Str ''Alice'')]]
   \<and> \<not> isString (get (hd (processedData [[(''Sales Level 6'', Num 42), (''SDR'', Str ''Alice'')]]))
                      ''salesLevel6'')"
  by code_simp

text \<open>
  C4, as the code has it. Every record of the canonical record set is the projection of
  an input row, and its \<open>salesLevel6\<close> and \<open>sdrName\<close> are the cell values of the last
  header of that row tagged as territory key and as owner name, stored as they are: no
  conversion to string takes place (a number stays a number), so the characters and
  their casing are those of the cell. \<open>String(...)\<close> is applied only when the search
  compares keys (\<open>territoryKeyLower\<close>).
\<close>

theorem stored_values_unchanged:
  assumes "r \<in> set (processedData json)"
  shows "\<exists>row \<in> set json.
           r = projectRow row
           \<and> lastValueFor ''salesLevel6'' row = Some (get r ''salesLevel6'')
           \<and> lastValueFor ''sdrName'' row = Some (get r ''sdrName'')
           \<and> (\<exists>kv \<in> set row. includes_js (toLowerCase (trim (fst kv))) ''sales level 6''
                                \<and> snd kv = get r ''salesLevel6'')
           \<and> (\<exists>kv \<in> set row. includes_js (toLowerCase (trim (fst kv))) ''sdr''
                                \<and> snd kv = get r ''sdrName'')"
proof -
  from assms obtain row where row: "row \<in> set json" "r = projectRow row"
    and kept: "truthy (get r ''salesLevel6'')" "truthy (get r ''sdrName'')"
    by (auto simp: processedData_def hasBothFields_def)
  from kept(1) row(2) have sl: "lastValueFor ''salesLevel6'' row = Some (get r ''salesLevel6'')"
    by (simp add: kept_row_value)
  from kept(2) row(2) have sd: "lastValueFor ''sdrName'' row = Some (get r ''sdrName'')"
    by (simp add: kept_row_value)
  from sl obtain kv where kv: "kv \<in> set row" "headerField (fst kv) = ''salesLevel6''"
      "snd kv = get r ''salesLevel6''"
    by (blast dest: lastValueFor_mem)
  from kv(2) have "includes_js (toLowerCase (trim (fst kv))) ''sales level 6''"
    by (simp add: headerField_salesLevel6_iff)
  with kv have m1: "\<exists>kv \<in> set row. includes_js (toLowerCase (trim (fst kv))) ''sales level 6''
                                \<and> snd kv = get r ''salesLevel6''"
    by blast
  from sd obtain kw where kw: "kw \<in> set row" "headerField (fst kw) = ''sdrName''"
      "snd kw = get r ''sdrName''"
    by (blast dest: lastValueFor_mem)
  from kw(2) have "includes_js (toLowerCase (trim (fst kw))) ''sdr''"
    by (simp add: headerField_sdrName_iff)
  with kw have m2: "\<exists>kv \<in> set row. includes_js (toLowerCase (trim (fst kv))) ''sdr''
                                \<and> snd kv = get r ''sdrName''"
    by blast
  from row sl sd m1 m2 show ?thesis
    by blast
qed

theorem stored_values_unchanged_witness:
  "[(''salesLevel6'', Num 42), (''sdrName'', Str ''McCoy'')]
     \<in> set (processedData [[(''Sales Level 6'', Num 42), (''SDR'', Str ''McCoy'')]])
   \<and> (\<exists>row \<in> set [[(''Sales Level 6'', Num 42), (''SDR'', Str ''McCoy'')]].
         [(''salesLevel6'', Num 42), (''sdrName'', Str ''McCoy'')] = projectRow row
         \<and> lastValueFor ''salesLevel6'' row = Some (Num 42)
         \<and> lastValueFor ''sdrName'' row = Some (Str ''McCoy''))"
proof -
  have mem: "[(''salesLevel6'', Num 42), (''sdrName'', Str ''McCoy'')]
     \<in> set (processedData [[(''Sales Level 6'', Num 42), (''SDR'', Str ''McCoy'')]])"
    by code_simp
  have g1: "get [(''salesLevel6'', Num 42), (''sdrName'', Str ''McCoy'')] ''salesLevel6'' = Num 42"
    by code_simp
  have g2: "get [(''salesLevel6'', Num 42), (''sdrName'', Str ''McCoy'')] ''sdrName'' = Str ''McCoy''"
    by code_simp
  from stored_values_unchanged [OF mem] mem show ?thesis
    unfolding g1 g2 by blast
qed

text \<open>
  C10. Two headers of one row that share the passthrough key \<open>__proto__\<close>: the write
  \<open>newRow['__proto__'] = value\<close> runs the setter inherited from \<open>Object.prototype\<close>,
  which ignores a primitive value, so the projected row holds neither the earlier nor the
  later value. The row is kept, with its two canonical fields only.
\<close>

theorem proto_headers_not_stored:
  "headerField ''__PROTO__'' = ''__proto__''
   \<and> headerField ''__Proto__'' = ''__proto__''
   \<and> projectRow
        [(''__PROTO__'', Str ''a''), (''__Proto__'', Str ''b''),
         (''Sales Level 6'', Str ''West-1''), (''SDR'', Str ''Alice'')]
       = [(''salesLevel6'', Str ''West-1''), (''sdrName'', Str ''Alice'')]
   \<and> processedData
        [[(''__PROTO__'', Str ''a''), (''__Proto__'', Str ''b''),
          (''Sales Level 6'', Str ''West-1''), (''SDR'', Str ''Alice'')]]
       = [[(''salesLevel6'', Str ''West-1''), (''sdrName'', Str ''Alice'')]]"
  by code_simp

subsection \<open>Search\<close>

lemma addResult_alt:
  "addResult term m r =
     (if matchesQuery term r \<and> territoryKeyLower r \<notin> fst ` set m
      then m @ [(territoryKeyLower r, toResult r)] else m)"
  by (simp add: addResult_def matchesQuery_def territoryKeyLower_def toResult_def Let_def
        map_of_eq_None_iff)

lemma foldl_addResult_keys:
  "fst ` set (foldl (addResult term) [] rows)
     = set (map territoryKeyLower (filter (matchesQuery term) rows))"
  by (induction rows rule: rev_induct) (auto simp: addResult_alt)

lemma firstMatch_append_old:
  "i < length rows \<Longrightarrow> firstMatch term (rows @ [r]) i = firstMatch term rows i"
  by (simp add: firstMatch_def nth_append)

lemma firstMatch_append_new:
  "firstMatch term (rows @ [r]) (length rows)
     = (matchesQuery term r
        \<and> territoryKeyLower r \<notin> set (map territoryKeyLower (filter (matchesQuery term) rows)))"
  by (simp add: firstMatch_def)

lemma foldl_addResult_char:
  "foldl (addResult term) [] rows
     = map (\<lambda>i. (territoryKeyLower (rows ! i), toResult (rows ! i)))
         (filter (firstMatch term rows) [0..<length rows])"
proof (induction rows rule: rev_induct)
  case Nil
  show ?case by simp
next
  case (snoc r rows)
  have old: "filter (firstMatch term (rows @ [r])) [0..<length rows]
               = filter (firstMatch term rows) [0..<length rows]"
    by (rule filter_cong) (simp_all add: firstMatch_append_old)
  have nth_old: "map (\<lambda>i. (territoryKeyLower ((rows @ [r]) ! i), toResult ((rows @ [r]) ! i)))
                   (filter (firstMatch term rows) [0..<length rows])
                 = map (\<lambda>i. (territoryKeyLower (rows ! i), toResult (rows ! i)))
                   (filter (firstMatch term rows) [0..<length rows])"
    by (rule map_cong) (simp_all add: nth_append)
  have new: "addResult term (foldl (addResult term) [] rows) r
               = (if firstMatch term (rows @ [r]) (length rows)
                  then foldl (addResult term) [] rows @ [(territoryKeyLower r, toResult r)]
                  else foldl (addResult term) [] rows)"
    by (simp only: addResult_alt foldl_addResult_keys firstMatch_append_new)
  have "map (\<lambda>i. (territoryKeyLower ((rows @ [r]) ! i), toResult ((rows @ [r]) ! i)))
          (filter (firstMatch term (rows @ [r])) [0..<length (rows @ [r])])
        = map (\<lambda>i. (territoryKeyLower (rows ! i), toResult (rows ! i)))
            (filter (firstMatch term rows) [0..<length rows])
          @ (if firstMatch term (rows @ [r]) (length rows)
             then [(territoryKeyLower r, toResult r)] else [])"
    by (simp add: old nth_old)
  also have "\<dots> = addResult term (foldl (addResult term) [] rows) r"
    by (simp only: new snoc.IH [symmetric]) simp
  finally show ?case by simp
qed

lemma uniqueResults_char:
  "uniqueResults term rows
     = map (\<lambda>i. toResult (rows ! i)) (filter (firstMatch term rows) [0..<length rows])"
  by (simp add: uniqueResults_def foldl_addResult_char comp_def)

lemma foldl_addResult_distinct:
  "distinct (map fst (foldl (addResult term) [] rows))"
  by (induction rows rule: rev_induct) (auto simp: addResult_alt)

lemma resultKey_toResult: "resultKey (toResult r) = territoryKeyLower r"
  by (simp add: resultKey_def toResult_def territoryKeyLower_def)

lemma uniqueResults_keys:
  "map resultKey (uniqueResults term rows) = map fst (foldl (addResult term) [] rows)"
  by (simp add: uniqueResults_def foldl_addResult_char comp_def resultKey_toResult)

lemma uniqueResults_distinct: "distinct (map resultKey (uniqueResults term rows))"
  by (simp only: uniqueResults_keys foldl_addResult_distinct)

lemma foldl_addResult_length:
  "length (foldl (addResult term) [] rows) \<le> length (filter (matchesQuery term) rows)"
  by (induction rows rule: rev_induct) (auto simp: addResult_alt)

lemma uniqueResults_length:
  "length (uniqueResults term rows) \<le> length (filter (matchesQuery term) rows)"
  by (simp add: uniqueResults_def foldl_addResult_length)

lemma uniqueResults_empty_iff:
  "uniqueResults term rows = [] \<longleftrightarrow> (\<forall>r \<in> set rows. \<not> matchesQuery term r)"
proof -
  have "uniqueResults term rows = [] \<longleftrightarrow> fst ` set (foldl (addResult term) [] rows) = {}"
    by (simp add: uniqueResults_def)
  also have "\<dots> \<longleftrightarrow> filter (matchesQuery term) rows = []"
    by (simp only: foldl_addResult_keys) (auto simp: filter_empty_conv)
  also have "\<dots> \<longleftrightarrow> (\<forall>r \<in> set rows. \<not> matchesQuery term r)"
    by (auto simp: filter_empty_conv)
  finally show ?thesis .
qed

lemma matchesQuery_canonical:
  "r \<in> set (processedData json) \<Longrightarrow>
     matchesQuery term r = includes_js (territoryKeyLower r) (toLowerCase term)"
  by (simp add: matchesQuery_def processedData_truthy)

lemma handleSearchChange_results:
  "term \<noteq> [] \<Longrightarrow>
     filteredResults (handleSearchChange term s) = uniqueResults term (excelData s)"
  by (cases "excelData s") (simp_all add: handleSearchChange_def Let_def uniqueResults_def)
lemma firstMatch_canonical:
  assumes "firstMatch term (processedData json) i" and "i < length (processedData json)"
  shows "includes_js (territoryKeyLower (processedData json ! i)) (toLowerCase term)
         \<and> (\<forall>j < i. territoryKeyLower (processedData json ! j)
                        \<noteq> territoryKeyLower (processedData json ! i))"
proof -
  let ?rows = "processedData json"
  from assms(1) have m: "matchesQuery term (?rows ! i)"
    and fresh: "territoryKeyLower (?rows ! i)
                  \<notin> set (map territoryKeyLower (filter (matchesQuery term) (take i ?rows)))"
    by (simp_all add: firstMatch_def)
  from m have inc: "includes_js (territoryKeyLower (?rows ! i)) (toLowerCase term)"
    by (simp add: matchesQuery_def)
  have "territoryKeyLower (?rows ! j) \<noteq> territoryKeyLower (?rows ! i)" if "j < i" for j
  proof
    assume eq: "territoryKeyLower (?rows ! j) = territoryKeyLower (?rows ! i)"
    from that assms(2) have "?rows ! j \<in> set ?rows"
      by simp
    with inc eq have mj: "matchesQuery term (?rows ! j)"
      by (simp add: matchesQuery_canonical)
    from that assms(2) have "take i ?rows ! j = ?rows ! j" and "j < length (take i ?rows)"
      by simp_all
    then have "?rows ! j \<in> set (take i ?rows)"
      by (metis nth_mem)
    with mj eq fresh show False
      by (auto simp: image_iff)
  qed
  with inc show ?thesis by blast
qed


text \<open>
  C1. For a canonical record set \<open>rows\<close> and a non-empty query, the results are the
  records at the first-match positions of \<open>rows\<close>, in input order: one result per
  lower-cased territory key (the keys of the results are distinct), each result carrying
  the \<open>salesLevel6\<close> and \<open>sdrName\<close> of a record whose lower-cased key contains the
  lower-cased query and which no earlier record shares its lower-cased key with. For the
  three rows of scenario A the query \<open>west\<close> gives the single result (West-1, Alice).
\<close>

theorem dedup_determinism:
  assumes "excelData s = rows" and "rows = processedData json" and "term \<noteq> []"
  shows "filteredResults (handleSearchChange term s)
           = map (\<lambda>i. toResult (rows ! i)) (filter (firstMatch term rows) [0..<length rows])
         \<and> distinct (map resultKey (filteredResults (handleSearchChange term s)))
         \<and> (\<forall>q \<in> set (filteredResults (handleSearchChange term s)).
               \<exists>i < length rows.
                 salesLevel6 q = get (rows ! i) ''salesLevel6''
                 \<and> sdrName q = get (rows ! i) ''sdrName''
                 \<and> includes_js (territoryKeyLower (rows ! i)) (toLowerCase term)
                 \<and> (\<forall>j < i. territoryKeyLower (rows ! j) \<noteq> territoryKeyLower (rows ! i)))
         \<and> length (processedData scenarioA) = 3
         \<and> filteredResults
              (handleSearchChange ''west'' (initialState\<lparr>excelData := processedData scenarioA\<rparr>))
             = [\<lparr>salesLevel6 = Str ''West-1'', sdrName = Str ''Alice''\<rparr>]"
proof -
  let ?res = "filteredResults (handleSearchChange term s)"
  from assms have res: "?res = uniqueResults term rows"
    by (simp add: handleSearchChange_results)
  then have order: "?res = map (\<lambda>i. toResult (rows ! i))
                             (filter (firstMatch term rows) [0..<length rows])"
    by (simp only: uniqueResults_char)
  from res have dist: "distinct (map resultKey ?res)"
    by (simp only: uniqueResults_distinct)
  have first: "\<exists>i < length rows.
                 salesLevel6 q = get (rows ! i) ''salesLevel6''
                 \<and> sdrName q = get (rows ! i) ''sdrName''
                 \<and> includes_js (territoryKeyLower (rows ! i)) (toLowerCase term)
                 \<and> (\<forall>j < i. territoryKeyLower (rows ! j) \<noteq> territoryKeyLower (rows ! i))"
    if "q \<in> set ?res" for q
  proof -
    from that order obtain i where i: "i < length rows" "firstMatch term rows i"
      and q: "q = toResult (rows ! i)"
      by auto
    from i assms(2) firstMatch_canonical [of "term" json i]
    have "includes_js (territoryKeyLower (rows ! i)) (toLowerCase term)
          \<and> (\<forall>j < i. territoryKeyLower (rows ! j) \<noteq> territoryKeyLower (rows ! i))"
      by simp
    with i(1) q show ?thesis
      by (auto simp: toResult_def)
  qed
  have three: "length (processedData scenarioA) = 3"
    by code_simp
  have "uniqueResults ''west'' (processedData scenarioA)
          = [\<lparr>salesLevel6 = Str ''West-1'', sdrName = Str ''Alice''\<rparr>]"
    by code_simp
  then have scen: "filteredResults
              (handleSearchChange ''west'' (initialState\<lparr>excelData := processedData scenarioA\<rparr>))
             = [\<lparr>salesLevel6 = Str ''West-1'', sdrName = Str ''Alice''\<rparr>]"
    by (simp add: handleSearchChange_results)
  from order dist first three scen show ?thesis
    by blast
qed

theorem dedup_determinism_witness:
  "excelData (initialState\<lparr>excelData := processedData scenarioA\<rparr>) = processedData scenarioA
   \<and> ''west'' \<noteq> []
   \<and> filteredResults
        (handleSearchChange ''west'' (initialState\<lparr>excelData := processedData scenarioA\<rparr>))
       = map (\<lambda>i. toResult (processedData scenarioA ! i))
           (filter (firstMatch ''west'' (processedData scenarioA))
              [0..<length (processedData scenarioA)])
   \<and> distinct (map resultKey
        (filteredResults
           (handleSearchChange ''west'' (initialState\<lparr>excelData := processedData scenarioA\<rparr>))))"
proof -
  have h1: "excelData (initialState\<lparr>excelData := processedData scenarioA\<rparr>)
              = processedData scenarioA"
    by simp
  have h3: "''west'' \<noteq> []"
    by simp
  from dedup_determinism [OF h1 refl h3] h1 h3 show ?thesis
    by blast
qed

text \<open>
  C5. For a canonical record set and a non-empty query, the result sequence is empty
  exactly when no record's lower-cased territory key contains the lower-cased query, and
  it is never longer than the list of matching records. The search is a total function:
  it has no error outcome. The query \<open>zzz\<close> on the records of scenario A gives the
  empty sequence.
\<close>

theorem no_match_empty:
  assumes "excelData s = rows" and "rows = processedData json" and "term \<noteq> []"
  shows "(filteredResults (handleSearchChange term s) = []
            \<longleftrightarrow> (\<forall>r \<in> set rows. \<not> includes_js (territoryKeyLower r) (toLowerCase term)))
         \<and> length (filteredResults (handleSearchChange term s))
             \<le> length (filter (\<lambda>r. includes_js (territoryKeyLower r) (toLowerCase term)) rows)
         \<and> processedData scenarioA \<noteq> []
         \<and> filteredResults
              (handleSearchChange ''zzz'' (initialState\<lparr>excelData := processedData scenarioA\<rparr>))
             = []"
proof -
  let ?res = "filteredResults (handleSearchChange term s)"
  from assms have res: "?res = uniqueResults term rows"
    by (simp add: handleSearchChange_results)
  have same: "filter (matchesQuery term) rows
                = filter (\<lambda>r. includes_js (territoryKeyLower r) (toLowerCase term)) rows"
    by (rule filter_cong) (simp_all add: assms(2) matchesQuery_canonical)
  have "?res = [] \<longleftrightarrow> (\<forall>r \<in> set rows. \<not> matchesQuery term r)"
    by (simp only: res uniqueResults_empty_iff)
  also have "\<dots> \<longleftrightarrow> (\<forall>r \<in> set rows. \<not> includes_js (territoryKeyLower r) (toLowerCase term))"
    by (simp add: assms(2) matchesQuery_canonical)
  finally have empty: "?res = []
      \<longleftrightarrow> (\<forall>r \<in> set rows. \<not> includes_js (territoryKeyLower r) (toLowerCase term))" .
  have "length ?res \<le> length (filter (matchesQuery term) rows)"
    by (simp only: res uniqueResults_length)
  then have len: "length ?res
      \<le> length (filter (\<lambda>r. includes_js (territoryKeyLower r) (toLowerCase term)) rows)"
    by (simp only: same)
  have ne: "processedData scenarioA \<noteq> []"
    by code_simp
  have "uniqueResults ''zzz'' (processedData scenarioA) = []"
    by code_simp
  then have scen: "filteredResults
              (handleSearchChange ''zzz'' (initialState\<lparr>excelData := processedData scenarioA\<rparr>))
             = []"
    by (simp add: handleSearchChange_results)
  from empty len ne scen show ?thesis
    by blast
qed

theorem no_match_empty_witness:
  "excelData (initialState\<lparr>excelData := processedData scenarioA\<rparr>) = processedData scenarioA
   \<and> ''east'' \<noteq> []
   \<and> length (filteredResults
        (handleSearchChange ''east'' (initialState\<lparr>excelData := processedData scenarioA\<rparr>)))
       \<le> length (filter (\<lambda>r. includes_js (territoryKeyLower r) (toLowerCase ''east''))
                   (processedData scenarioA))
   \<and> filteredResults
        (handleSearchChange ''east'' (initialState\<lparr>excelData := processedData scenarioA\<rparr>))
       \<noteq> []"
proof -
  have h1: "excelData (initialState\<lparr>excelData := processedData scenarioA\<rparr>)
              = processedData scenarioA"
    by simp
  have h3: "''east'' \<noteq> []"
    by simp
  have "uniqueResults ''east'' (processedData scenarioA) \<noteq> []"
    by code_simp
  then have ne: "filteredResults
        (handleSearchChange ''east'' (initialState\<lparr>excelData := processedData scenarioA\<rparr>))
       \<noteq> []"
    by (simp add: handleSearchChange_results)
  from no_match_empty [OF h1 refl h3] h1 h3 ne show ?thesis
    by blast
qed

text \<open>
  C8. Searching with the empty string leaves an empty result sequence, whatever the
  record set and the rest of the state.
\<close>

theorem empty_query_law:
  "filteredResults (handleSearchChange [] s) = []"
  by (simp add: handleSearchChange_def)

subsection \<open>Upload\<close>

text \<open>
  C9. When the parser throws, or when no projected row survives, the \<open>onload\<close> callback
  empties the record set and leaves the earlier query results as they were; when at least
  one row survives it stores the record set and empties the query results.
\<close>

theorem failed_upload_keeps_results:
  "filteredResults (onload fileName (Inl err) s) = filteredResults s
   \<and> excelData (onload fileName (Inl err) s) = []
   \<and> (processedData json = [] \<longrightarrow>
        filteredResults (onload fileName (Inr json) s) = filteredResults s
        \<and> excelData (onload fileName (Inr json) s) = [])
   \<and> (processedData json \<noteq> [] \<longrightarrow>
        filteredResults (onload fileName (Inr json) s) = []
        \<and> excelData (onload fileName (Inr json) s) = processedData json)"
  by (simp add: onload_def clearFileInput_def Let_def)

theorem failed_upload_keeps_results_witness:
  "processedData scenarioB = []
   \<and> filteredResults
        (onload ''b.csv'' (Inr scenarioB)
           (initialState\<lparr>filteredResults := [\<lparr>salesLevel6 = Str ''North-2'', sdrName = Str ''Dan''\<rparr>]\<rparr>))
       = [\<lparr>salesLevel6 = Str ''North-2'', sdrName = Str ''Dan''\<rparr>]
   \<and> excelData
        (onload ''b.csv'' (Inr scenarioB)
           (initialState\<lparr>filteredResults := [\<lparr>salesLevel6 = Str ''North-2'', sdrName = Str ''Dan''\<rparr>]\<rparr>))
       = []
   \<and> processedData scenarioA \<noteq> []
   \<and> filteredResults
        (onload ''a.csv'' (Inr scenarioA)
           (initialState\<lparr>filteredResults := [\<lparr>salesLevel6 = Str ''North-2'', sdrName = Str ''Dan''\<rparr>]\<rparr>))
       = []"
proof -
  have b: "processedData scenarioB = []"
    by code_simp
  have a: "processedData scenarioA \<noteq> []"
    by code_simp
  from a b
    failed_upload_keeps_results
      [of "''b.csv''" ParserThrew
          "initialState\<lparr>filteredResults := [\<lparr>salesLevel6 = Str ''North-2'', sdrName = Str ''Dan''\<rparr>]\<rparr>"
          scenarioB]
    failed_upload_keeps_results
      [of "''a.csv''" ParserThrew
          "initialState\<lparr>filteredResults := [\<lparr>salesLevel6 = Str ''North-2'', sdrName = Str ''Dan''\<rparr>]\<rparr>"
          scenarioA]
  show ?thesis
    by (simp add: initialState_def)
qed

text \<open>
  C6. When the parser has delivered rows, \<open>onload\<close> projects them and branches: with at
  least one surviving record the record set is stored and the message reports its count;
  with none the record set is emptied and the message is the one for no valid rows. A
  file chosen while the library is loaded reaches exactly this callback. The row of
  scenario B has neither column, projects to nothing and ends in the second branch.
\<close>

theorem ingestion_outcome:
  "(processedData json \<noteq> [] \<longrightarrow>
      excelData (onload fileName (Inr json) s) = processedData json
      \<and> message (onload fileName (Inr json) s)
          = msgLoaded (length (processedData json)) fileName)
   \<and> (processedData json = [] \<longrightarrow>
        excelData (onload fileName (Inr json) s) = []
        \<and> message (onload fileName (Inr json) s) = msgNoValidRows)
   \<and> (isXLSXLoaded s \<longrightarrow>
        handleFileUpload (Some fileName) (Inr json) s
          = onload fileName (Inr json) (s\<lparr>fileSelected := True\<rparr>))
   \<and> processedData scenarioB = []
   \<and> excelData (onload fileName (Inr scenarioB) s) = []
   \<and> message (onload fileName (Inr scenarioB) s) = msgNoValidRows"
proof -
  have b: "processedData scenarioB = []"
    by code_simp
  have branch: "(processedData js \<noteq> [] \<longrightarrow>
      excelData (onload fileName (Inr js) s) = processedData js
      \<and> message (onload fileName (Inr js) s)
          = msgLoaded (length (processedData js)) fileName)
   \<and> (processedData js = [] \<longrightarrow>
        excelData (onload fileName (Inr js) s) = []
        \<and> message (onload fileName (Inr js) s) = msgNoValidRows)" for js
    by (simp add: onload_def clearFileInput_def Let_def)
  have up: "isXLSXLoaded s \<longrightarrow>
        handleFileUpload (Some fileName) (Inr json) s
          = onload fileName (Inr json) (s\<lparr>fileSelected := True\<rparr>)"
    by (simp add: handleFileUpload_def)
  from branch [of json] branch [of scenarioB] b up show ?thesis
    by simp
qed

theorem ingestion_outcome_witness:
  "processedData scenarioA \<noteq> []
   \<and> excelData (onload ''a.csv'' (Inr scenarioA) initialState) = processedData scenarioA
   \<and> message (onload ''a.csv'' (Inr scenarioA) initialState) = msgLoaded 3 ''a.csv''
   \<and> processedData scenarioB = []
   \<and> message (onload ''b.csv'' (Inr scenarioB) initialState) = msgNoValidRows
   \<and> isXLSXLoaded (initialState\<lparr>isXLSXLoaded := True\<rparr>)
   \<and> excelData (handleFileUpload (Some ''a.csv'') (Inr scenarioA)
                  (initialState\<lparr>isXLSXLoaded := True\<rparr>)) = processedData scenarioA"
proof -
  have a: "processedData scenarioA \<noteq> []"
    by code_simp
  have n: "length (processedData scenarioA) = 3"
    by code_simp
  have l: "isXLSXLoaded (initialState\<lparr>isXLSXLoaded := True\<rparr>)"
    by simp
  from a n l
    ingestion_outcome [of scenarioA "''a.csv''" initialState]
    ingestion_outcome [of scenarioB "''b.csv''" initialState]
    ingestion_outcome [of scenarioA "''a.csv''" "initialState\<lparr>isXLSXLoaded := True\<rparr>"]
  show ?thesis
    by (simp add: onload_def Let_def)
qed

end
